theory Spec2Isabelle
  imports Main "HOL-Library.FSet" "HOL-Library.Finite_Map"
begin

section \<open>Value model (include/ValueTypes.h)\<close>

text \<open>
  The four Redis data types of the store.  \<open>RedisData\<close> is the
  \<open>std::variant<RedisString, RedisList, RedisSet, RedisHash>\<close> of the source: one
  constructor per alternative, named after the alias of the alternative.  The unordered
  containers are finite sets and finite maps; their iteration order is not part of the model.
\<close>

datatype ValueType = STRING | LIST | SET | HASH

datatype RedisData =
    RedisString string
  | RedisList "string list"
  | RedisSet "string fset"
  | RedisHash "(string, string) fmap"

text \<open>
  A \<open>TimePoint\<close> is a reading of \<open>std::chrono::system_clock\<close>, counted in ticks of
  the clock.  Every operation of the model receives the reading \<open>now\<close> of the clock as an
  argument.  Integers are unbounded: lists are taken to be shorter than \<open>2^31\<close> elements
  and deadlines to fit the clock's 64-bit representation, so that no arithmetic of the
  source overflows.
\<close>

type_synonym TimePoint = int

definition ticks_per_second :: int where
  \<comment> \<open>\<open>system_clock::period\<close> of libstdc++ is a nanosecond.\<close>
  "ticks_per_second = 1000000000"

definition seconds :: "int \<Rightarrow> int" where
  "seconds n = n * ticks_per_second"

record RedisValue =
  data :: RedisData
  expiry :: "TimePoint option"

definition RedisValue_default :: RedisValue where
  "RedisValue_default = \<lparr>data = RedisString [], expiry = None\<rparr>"

definition RedisValue_of :: "RedisData \<Rightarrow> RedisValue" where
  \<comment> \<open>\<open>explicit RedisValue(RedisData d)\<close>: no expiry.\<close>
  "RedisValue_of d = \<lparr>data = d, expiry = None\<rparr>"

definition RedisValue_ttl :: "TimePoint \<Rightarrow> RedisData \<Rightarrow> int \<Rightarrow> RedisValue" where
  \<comment> \<open>\<open>RedisValue(RedisData d, int ttl_seconds)\<close>, constructed at clock reading \<open>now\<close>.\<close>
  "RedisValue_ttl now d ttl_seconds =
     (if ttl_seconds > 0 then \<lparr>data = d, expiry = Some (now + seconds ttl_seconds)\<rparr>
      else \<lparr>data = d, expiry = None\<rparr>)"

definition RedisValue_isExpired :: "RedisValue \<Rightarrow> TimePoint \<Rightarrow> bool" where
  \<comment> \<open>\<open>RedisValue::isExpired\<close>: strictly past the deadline.\<close>
  "RedisValue_isExpired v now =
     (case expiry v of None \<Rightarrow> False | Some t \<Rightarrow> now > t)"

fun classify :: "RedisData \<Rightarrow> ValueType" where
  "classify (RedisString _) = STRING"
| "classify (RedisList _) = LIST"
| "classify (RedisSet _) = SET"
| "classify (RedisHash _) = HASH"

definition getType :: "RedisValue \<Rightarrow> ValueType" where
  \<comment> \<open>\<open>RedisValue::getType\<close>: the \<open>std::visit\<close> over the variant.\<close>
  "getType v = classify (data v)"

text \<open>
  What the C++ can do beyond returning a value: \<open>std::get<T>\<close> on a variant that holds
  another alternative throws \<open>std::bad_variant_access\<close>; an iterator range that leaves
  the vector it points into is an out-of-range access.
\<close>

datatype fault = bad_variant_access | out_of_range

fun std_get_RedisString :: "RedisData \<Rightarrow> fault + string" where
  "std_get_RedisString (RedisString x) = Inr x"
| "std_get_RedisString _ = Inl bad_variant_access"

fun std_get_RedisList :: "RedisData \<Rightarrow> fault + string list" where
  "std_get_RedisList (RedisList x) = Inr x"
| "std_get_RedisList _ = Inl bad_variant_access"

fun std_get_RedisSet :: "RedisData \<Rightarrow> fault + string fset" where
  "std_get_RedisSet (RedisSet x) = Inr x"
| "std_get_RedisSet _ = Inl bad_variant_access"

fun std_get_RedisHash :: "RedisData \<Rightarrow> fault + (string, string) fmap" where
  "std_get_RedisHash (RedisHash x) = Inr x"
| "std_get_RedisHash _ = Inl bad_variant_access"

definition vector_range :: "'a list \<Rightarrow> int \<Rightarrow> int \<Rightarrow> fault + 'a list" where
  \<comment> \<open>\<open>std::vector<T>(v.begin() + first, v.begin() + last)\<close>: the elements at the
      positions \<open>fst_pos, ..., lst_pos - 1\<close>; both iterators have to stay within
      \<open>[begin, end]\<close>.\<close>
  "vector_range v fst_pos lst_pos =
     (if 0 \<le> fst_pos \<and> fst_pos \<le> lst_pos \<and> lst_pos \<le> int (length v)
      then Inr (take (nat (lst_pos - fst_pos)) (drop (nat fst_pos) v))
      else Inl out_of_range)"

section \<open>Storage engine (StorageEngine.h, StorageEngine.cpp)\<close>

text \<open>
  The state of a \<open>StorageEngine\<close> is its only member, the
  \<open>unordered_map<string, RedisValue> store_\<close>.  A member function that is not
  \<open>const\<close> returns its result together with the map it leaves behind.
\<close>

type_synonym StorageEngine = "(string, RedisValue) fmap"

definition isExpired :: "StorageEngine \<Rightarrow> TimePoint \<Rightarrow> string \<Rightarrow> bool \<times> StorageEngine" where
  \<comment> \<open>\<open>StorageEngine::isExpired(key)\<close>: erases the entry it finds expired.\<close>
  "isExpired store now key =
     (case fmlookup store key of
        None \<Rightarrow> (False, store)
      | Some v \<Rightarrow>
          if RedisValue_isExpired v now then (True, fmdrop key store)
          else (False, store))"

subsection \<open>String operations\<close>

definition set_value :: "StorageEngine \<Rightarrow> TimePoint \<Rightarrow> string \<Rightarrow> string \<Rightarrow> int \<Rightarrow> bool \<times> StorageEngine" where
  \<comment> \<open>\<open>StorageEngine::set\<close>\<close>
  "set_value store now key val ttl =
     (True, fmupd key (RedisValue_ttl now (RedisString val) ttl) store)"

definition get :: "StorageEngine \<Rightarrow> TimePoint \<Rightarrow> string \<Rightarrow> (fault + string option) \<times> StorageEngine" where
  "get store now key =
     (let (ex, s1) = isExpired store now key in
      if ex then (Inr None, s1)
      else case fmlookup s1 key of
        None \<Rightarrow> (Inr None, s1)
      | Some v \<Rightarrow>
          if getType v \<noteq> STRING then (Inr None, s1)
          else (case std_get_RedisString (data v) of
                  Inl f \<Rightarrow> (Inl f, s1)
                | Inr x \<Rightarrow> (Inr (Some x), s1)))"

subsection \<open>List operations\<close>

definition lpush :: "StorageEngine \<Rightarrow> TimePoint \<Rightarrow> string \<Rightarrow> string list \<Rightarrow> (fault + nat) \<times> StorageEngine" where
  "lpush store now key vals =
     (let (ex, s1) = isExpired store now key;
          s2 = (if ex then fmdrop key s1 else s1)
      in case fmlookup s2 key of
        None \<Rightarrow>
          (let list = rev vals
           in (Inr (length list), fmupd key (RedisValue_of (RedisList list)) s2))
      | Some v \<Rightarrow>
          if getType v \<noteq> LIST then (Inr 0, s2)
          else (case std_get_RedisList (data v) of
                  Inl f \<Rightarrow> (Inl f, s2)
                | Inr list \<Rightarrow>
                    (let list' = rev vals @ list
                     in (Inr (length list'), fmupd key (v\<lparr>data := RedisList list'\<rparr>) s2))))"

definition rpush :: "StorageEngine \<Rightarrow> TimePoint \<Rightarrow> string \<Rightarrow> string list \<Rightarrow> (fault + nat) \<times> StorageEngine" where
  "rpush store now key vals =
     (let (ex, s1) = isExpired store now key;
          s2 = (if ex then fmdrop key s1 else s1)
      in case fmlookup s2 key of
        None \<Rightarrow> (Inr (length vals), fmupd key (RedisValue_of (RedisList vals)) s2)
      | Some v \<Rightarrow>
          if getType v \<noteq> LIST then (Inr 0, s2)
          else (case std_get_RedisList (data v) of
                  Inl f \<Rightarrow> (Inl f, s2)
                | Inr list \<Rightarrow>
                    (let list' = list @ vals
                     in (Inr (length list'), fmupd key (v\<lparr>data := RedisList list'\<rparr>) s2))))"

definition lpop :: "StorageEngine \<Rightarrow> TimePoint \<Rightarrow> string \<Rightarrow> (fault + string option) \<times> StorageEngine" where
  "lpop store now key =
     (let (ex, s1) = isExpired store now key in
      if ex then (Inr None, s1)
      else case fmlookup s1 key of
        None \<Rightarrow> (Inr None, s1)
      | Some v \<Rightarrow>
          if getType v \<noteq> LIST then (Inr None, s1)
          else (case std_get_RedisList (data v) of
                  Inl f \<Rightarrow> (Inl f, s1)
                | Inr list \<Rightarrow>
                    (case list of
                       [] \<Rightarrow> (Inr None, s1)
                     | x # list' \<Rightarrow>
                         (Inr (Some x),
                          if list' = [] then fmdrop key s1
                          else fmupd key (v\<lparr>data := RedisList list'\<rparr>) s1))))"

definition rpop :: "StorageEngine \<Rightarrow> TimePoint \<Rightarrow> string \<Rightarrow> (fault + string option) \<times> StorageEngine" where
  "rpop store now key =
     (let (ex, s1) = isExpired store now key in
      if ex then (Inr None, s1)
      else case fmlookup s1 key of
        None \<Rightarrow> (Inr None, s1)
      | Some v \<Rightarrow>
          if getType v \<noteq> LIST then (Inr None, s1)
          else (case std_get_RedisList (data v) of
                  Inl f \<Rightarrow> (Inl f, s1)
                | Inr list \<Rightarrow>
                    if list = [] then (Inr None, s1)
                    else (let x = last list; list' = butlast list
                          in (Inr (Some x),
                              if list' = [] then fmdrop key s1
                              else fmupd key (v\<lparr>data := RedisList list'\<rparr>) s1))))"

definition lrange :: "StorageEngine \<Rightarrow> TimePoint \<Rightarrow> string \<Rightarrow> int \<Rightarrow> int \<Rightarrow> (fault + string list) \<times> StorageEngine" where
  "lrange store now key start stop =
     (let (ex, s1) = isExpired store now key in
      if ex then (Inr [], s1)
      else case fmlookup s1 key of
        None \<Rightarrow> (Inr [], s1)
      | Some v \<Rightarrow>
          if getType v \<noteq> LIST then (Inr [], s1)
          else (case std_get_RedisList (data v) of
                  Inl f \<Rightarrow> (Inl f, s1)
                | Inr list \<Rightarrow>
                    (let size = int (length list);
                         start1 = (if start < 0 then size + start else start);
                         stop1 = (if stop < 0 then size + stop else stop);
                         start2 = max 0 (min start1 (size - 1));
                         stop2 = max 0 (min stop1 (size - 1))
                     in if start2 > stop2 then (Inr [], s1)
                        else (vector_range list start2 (stop2 + 1), s1))))"

definition llen :: "StorageEngine \<Rightarrow> TimePoint \<Rightarrow> string \<Rightarrow> (fault + nat) \<times> StorageEngine" where
  "llen store now key =
     (let (ex, s1) = isExpired store now key in
      if ex then (Inr 0, s1)
      else case fmlookup s1 key of
        None \<Rightarrow> (Inr 0, s1)
      | Some v \<Rightarrow>
          if getType v \<noteq> LIST then (Inr 0, s1)
          else (case std_get_RedisList (data v) of
                  Inl f \<Rightarrow> (Inl f, s1)
                | Inr list \<Rightarrow> (Inr (length list), s1)))"

subsection \<open>Set operations\<close>

fun sadd_loop :: "string list \<Rightarrow> string fset \<Rightarrow> nat \<Rightarrow> string fset \<times> nat" where
  \<comment> \<open>\<open>for (member : members) if (set.insert(member).second) added++;\<close>\<close>
  "sadd_loop [] S added = (S, added)"
| "sadd_loop (member # members) S added =
     (if member |\<in>| S then sadd_loop members S added
      else sadd_loop members (finsert member S) (added + 1))"

fun srem_loop :: "string list \<Rightarrow> string fset \<Rightarrow> nat \<Rightarrow> string fset \<times> nat" where
  \<comment> \<open>\<open>for (member : members) removed += set.erase(member);\<close>\<close>
  "srem_loop [] S removed = (S, removed)"
| "srem_loop (member # members) S removed =
     (if member |\<in>| S then srem_loop members (S |-| {|member|}) (removed + 1)
      else srem_loop members S removed)"

definition sadd :: "StorageEngine \<Rightarrow> TimePoint \<Rightarrow> string \<Rightarrow> string list \<Rightarrow> (fault + nat) \<times> StorageEngine" where
  "sadd store now key members =
     (let (ex, s1) = isExpired store now key;
          s2 = (if ex then fmdrop key s1 else s1)
      in case fmlookup s2 key of
        None \<Rightarrow>
          (let new_set = fset_of_list members
           in (Inr (fcard new_set), fmupd key (RedisValue_of (RedisSet new_set)) s2))
      | Some v \<Rightarrow>
          if getType v \<noteq> SET then (Inr 0, s2)
          else (case std_get_RedisSet (data v) of
                  Inl f \<Rightarrow> (Inl f, s2)
                | Inr S \<Rightarrow>
                    (let (S', added) = sadd_loop members S 0
                     in (Inr added, fmupd key (v\<lparr>data := RedisSet S'\<rparr>) s2))))"

definition srem :: "StorageEngine \<Rightarrow> TimePoint \<Rightarrow> string \<Rightarrow> string list \<Rightarrow> (fault + nat) \<times> StorageEngine" where
  "srem store now key members =
     (let (ex, s1) = isExpired store now key in
      if ex then (Inr 0, s1)
      else case fmlookup s1 key of
        None \<Rightarrow> (Inr 0, s1)
      | Some v \<Rightarrow>
          if getType v \<noteq> SET then (Inr 0, s1)
          else (case std_get_RedisSet (data v) of
                  Inl f \<Rightarrow> (Inl f, s1)
                | Inr S \<Rightarrow>
                    (let (S', removed) = srem_loop members S 0
                     in (Inr removed,
                         if S' = {||} then fmdrop key s1
                         else fmupd key (v\<lparr>data := RedisSet S'\<rparr>) s1))))"

definition sismember :: "StorageEngine \<Rightarrow> TimePoint \<Rightarrow> string \<Rightarrow> string \<Rightarrow> (fault + bool) \<times> StorageEngine" where
  "sismember store now key member =
     (let (ex, s1) = isExpired store now key in
      if ex then (Inr False, s1)
      else case fmlookup s1 key of
        None \<Rightarrow> (Inr False, s1)
      | Some v \<Rightarrow>
          if getType v \<noteq> SET then (Inr False, s1)
          else (case std_get_RedisSet (data v) of
                  Inl f \<Rightarrow> (Inl f, s1)
                | Inr S \<Rightarrow> (Inr (member |\<in>| S), s1)))"

definition smembers :: "StorageEngine \<Rightarrow> TimePoint \<Rightarrow> string \<Rightarrow> (fault + string fset) \<times> StorageEngine" where
  \<comment> \<open>The vector returned lists the set in the container's own order: it is given as the
      set of its elements.\<close>
  "smembers store now key =
     (let (ex, s1) = isExpired store now key in
      if ex then (Inr {||}, s1)
      else case fmlookup s1 key of
        None \<Rightarrow> (Inr {||}, s1)
      | Some v \<Rightarrow>
          if getType v \<noteq> SET then (Inr {||}, s1)
          else (case std_get_RedisSet (data v) of
                  Inl f \<Rightarrow> (Inl f, s1)
                | Inr S \<Rightarrow> (Inr S, s1)))"

definition scard :: "StorageEngine \<Rightarrow> TimePoint \<Rightarrow> string \<Rightarrow> (fault + nat) \<times> StorageEngine" where
  "scard store now key =
     (let (ex, s1) = isExpired store now key in
      if ex then (Inr 0, s1)
      else case fmlookup s1 key of
        None \<Rightarrow> (Inr 0, s1)
      | Some v \<Rightarrow>
          if getType v \<noteq> SET then (Inr 0, s1)
          else (case std_get_RedisSet (data v) of
                  Inl f \<Rightarrow> (Inl f, s1)
                | Inr S \<Rightarrow> (Inr (fcard S), s1)))"

subsection \<open>Hash operations\<close>

fun hdel_loop :: "string list \<Rightarrow> (string, string) fmap \<Rightarrow> nat \<Rightarrow> (string, string) fmap \<times> nat" where
  \<comment> \<open>\<open>for (field : fields) deleted += hash.erase(field);\<close>\<close>
  "hdel_loop [] hash deleted = (hash, deleted)"
| "hdel_loop (field # flds) hash deleted =
     (if field |\<in>| fmdom hash then hdel_loop flds (fmdrop field hash) (deleted + 1)
      else hdel_loop flds hash deleted)"

definition hset :: "StorageEngine \<Rightarrow> TimePoint \<Rightarrow> string \<Rightarrow> string \<Rightarrow> string \<Rightarrow> (fault + bool) \<times> StorageEngine" where
  "hset store now key field val =
     (let (ex, s1) = isExpired store now key;
          s2 = (if ex then fmdrop key s1 else s1)
      in case fmlookup s2 key of
        None \<Rightarrow>
          (let hash = fmupd field val fmempty
           in (Inr True, fmupd key (RedisValue_of (RedisHash hash)) s2))
      | Some v \<Rightarrow>
          if getType v \<noteq> HASH then (Inr False, s2)
          else (case std_get_RedisHash (data v) of
                  Inl f \<Rightarrow> (Inl f, s2)
                | Inr hash \<Rightarrow>
                    (Inr True, fmupd key (v\<lparr>data := RedisHash (fmupd field val hash)\<rparr>) s2)))"

definition hget :: "StorageEngine \<Rightarrow> TimePoint \<Rightarrow> string \<Rightarrow> string \<Rightarrow> (fault + string option) \<times> StorageEngine" where
  "hget store now key field =
     (let (ex, s1) = isExpired store now key in
      if ex then (Inr None, s1)
      else case fmlookup s1 key of
        None \<Rightarrow> (Inr None, s1)
      | Some v \<Rightarrow>
          if getType v \<noteq> HASH then (Inr None, s1)
          else (case std_get_RedisHash (data v) of
                  Inl f \<Rightarrow> (Inl f, s1)
                | Inr hash \<Rightarrow> (Inr (fmlookup hash field), s1)))"

definition hdel :: "StorageEngine \<Rightarrow> TimePoint \<Rightarrow> string \<Rightarrow> string list \<Rightarrow> (fault + nat) \<times> StorageEngine" where
  "hdel store now key flds =
     (let (ex, s1) = isExpired store now key in
      if ex then (Inr 0, s1)
      else case fmlookup s1 key of
        None \<Rightarrow> (Inr 0, s1)
      | Some v \<Rightarrow>
          if getType v \<noteq> HASH then (Inr 0, s1)
          else (case std_get_RedisHash (data v) of
                  Inl f \<Rightarrow> (Inl f, s1)
                | Inr hash \<Rightarrow>
                    (let (hash', deleted) = hdel_loop flds hash 0
                     in (Inr deleted,
                         if hash' = fmempty then fmdrop key s1
                         else fmupd key (v\<lparr>data := RedisHash hash'\<rparr>) s1))))"

definition hexists :: "StorageEngine \<Rightarrow> TimePoint \<Rightarrow> string \<Rightarrow> string \<Rightarrow> (fault + bool) \<times> StorageEngine" where
  "hexists store now key field =
     (let (ex, s1) = isExpired store now key in
      if ex then (Inr False, s1)
      else case fmlookup s1 key of
        None \<Rightarrow> (Inr False, s1)
      | Some v \<Rightarrow>
          if getType v \<noteq> HASH then (Inr False, s1)
          else (case std_get_RedisHash (data v) of
                  Inl f \<Rightarrow> (Inl f, s1)
                | Inr hash \<Rightarrow> (Inr (field |\<in>| fmdom hash), s1)))"

definition hgetall :: "StorageEngine \<Rightarrow> TimePoint \<Rightarrow> string \<Rightarrow> (fault + (string, string) fmap) \<times> StorageEngine" where
  "hgetall store now key =
     (let (ex, s1) = isExpired store now key in
      if ex then (Inr fmempty, s1)
      else case fmlookup s1 key of
        None \<Rightarrow> (Inr fmempty, s1)
      | Some v \<Rightarrow>
          if getType v \<noteq> HASH then (Inr fmempty, s1)
          else (case std_get_RedisHash (data v) of
                  Inl f \<Rightarrow> (Inl f, s1)
                | Inr hash \<Rightarrow> (Inr hash, s1)))"

definition hlen :: "StorageEngine \<Rightarrow> TimePoint \<Rightarrow> string \<Rightarrow> (fault + nat) \<times> StorageEngine" where
  "hlen store now key =
     (let (ex, s1) = isExpired store now key in
      if ex then (Inr 0, s1)
      else case fmlookup s1 key of
        None \<Rightarrow> (Inr 0, s1)
      | Some v \<Rightarrow>
          if getType v \<noteq> HASH then (Inr 0, s1)
          else (case std_get_RedisHash (data v) of
                  Inl f \<Rightarrow> (Inl f, s1)
                | Inr hash \<Rightarrow> (Inr (fcard (fmdom hash)), s1)))"

subsection \<open>General operations\<close>

definition remove :: "StorageEngine \<Rightarrow> string \<Rightarrow> bool \<times> StorageEngine" where
  \<comment> \<open>\<open>return store_.erase(key) > 0;\<close>  The clock is not read.\<close>
  "remove store key = (key |\<in>| fmdom store, fmdrop key store)"

definition exists :: "StorageEngine \<Rightarrow> TimePoint \<Rightarrow> string \<Rightarrow> bool \<times> StorageEngine" where
  "exists store now key =
     (let (ex, s1) = isExpired store now key in
      if ex then (False, s1)
      else (key |\<in>| fmdom s1, s1))"

definition type :: "StorageEngine \<Rightarrow> TimePoint \<Rightarrow> string \<Rightarrow> ValueType option \<times> StorageEngine" where
  "type store now key =
     (let (ex, s1) = isExpired store now key in
      if ex then (None, s1)
      else case fmlookup s1 key of
        None \<Rightarrow> (None, s1)
      | Some v \<Rightarrow> (Some (getType v), s1))"

definition expire :: "StorageEngine \<Rightarrow> TimePoint \<Rightarrow> string \<Rightarrow> int \<Rightarrow> bool \<times> StorageEngine" where
  "expire store now key secs =
     (let (ex, s1) = isExpired store now key in
      if ex then (False, s1)
      else case fmlookup s1 key of
        None \<Rightarrow> (False, s1)
      | Some v \<Rightarrow>
          (True,
           fmupd key (v\<lparr>expiry := (if secs > 0 then Some (now + seconds secs) else None)\<rparr>) s1))"

definition ttl :: "StorageEngine \<Rightarrow> TimePoint \<Rightarrow> string \<Rightarrow> int \<times> StorageEngine" where
  \<comment> \<open>\<open>StorageEngine::ttl\<close> does not call \<open>isExpired\<close>: it compares the deadline with the
      clock itself.  \<open>duration_cast<seconds>\<close> truncates; the duration is positive where it
      is applied.\<close>
  "ttl store now key =
     (case fmlookup store key of
        None \<Rightarrow> (- 2, store)
      | Some v \<Rightarrow>
          (case expiry v of
             None \<Rightarrow> (- 1, store)
           | Some t \<Rightarrow>
               (let remaining = t - now
                in if remaining \<le> 0 then (- 2, fmdrop key store)
                   else (remaining div ticks_per_second, store))))"

definition keys :: "StorageEngine \<Rightarrow> TimePoint \<Rightarrow> string fset" where
  \<comment> \<open>\<open>const\<close>: the keys of the entries that are not expired, as a set.\<close>
  "keys store now =
     ffilter (\<lambda>key. case fmlookup store key of
                      None \<Rightarrow> False
                    | Some v \<Rightarrow> \<not> RedisValue_isExpired v now)
             (fmdom store)"

definition size_store :: "StorageEngine \<Rightarrow> TimePoint \<Rightarrow> nat" where
  \<comment> \<open>\<open>StorageEngine::size\<close>, \<open>const\<close>: counts the entries that are not expired.\<close>
  "size_store store now = fcard (keys store now)"

definition clear :: "StorageEngine \<Rightarrow> StorageEngine" where
  "clear store = fmempty"

definition cleanupExpired :: "StorageEngine \<Rightarrow> TimePoint \<Rightarrow> nat \<times> StorageEngine" where
  "cleanupExpired store now =
     (let expired_keys =
            ffilter (\<lambda>key. case fmlookup store key of
                             None \<Rightarrow> False
                           | Some v \<Rightarrow> RedisValue_isExpired v now)
                    (fmdom store)
      in (fcard expired_keys, fmdrop_fset expired_keys store))"

section \<open>Facade and concurrency wrapper (KeyValueStore.cpp, ThreadSafeStore.cpp)\<close>

text \<open>
  Both classes expose one method per command and forward it.  A command is a value of
  \<open>command\<close>, what a method returns a value of \<open>reply\<close>; \<open>Raised\<close> is a reply the
  C++ does not give by returning.
\<close>

datatype command =
    Cmd_set string string int
  | Cmd_get string
  | Cmd_lpush string "string list"
  | Cmd_rpush string "string list"
  | Cmd_lpop string
  | Cmd_rpop string
  | Cmd_lrange string int int
  | Cmd_llen string
  | Cmd_sadd string "string list"
  | Cmd_srem string "string list"
  | Cmd_sismember string string
  | Cmd_smembers string
  | Cmd_scard string
  | Cmd_hset string string string
  | Cmd_hget string string
  | Cmd_hdel string "string list"
  | Cmd_hexists string string
  | Cmd_hgetall string
  | Cmd_hlen string
  | Cmd_del string
  | Cmd_exists string
  | Cmd_type string
  | Cmd_expire string int
  | Cmd_ttl string
  | Cmd_keys
  | Cmd_size
  | Cmd_clear

datatype reply =
    Reply_bool bool
  | Reply_string "string option"
  | Reply_size nat
  | Reply_list "string list"
  | Reply_set "string fset"
  | Reply_hash "(string, string) fmap"
  | Reply_type "ValueType option"
  | Reply_int int
  | Reply_void
  | Raised fault

definition returning :: "('a \<Rightarrow> reply) \<Rightarrow> (fault + 'a) \<times> StorageEngine \<Rightarrow> reply \<times> StorageEngine" where
  "returning wrap r = (case fst r of Inl f \<Rightarrow> (Raised f, snd r) | Inr x \<Rightarrow> (wrap x, snd r))"

primrec KeyValueStore_run :: "command \<Rightarrow> StorageEngine \<Rightarrow> TimePoint \<Rightarrow> reply \<times> StorageEngine" where
  \<comment> \<open>One equation per method of \<open>KeyValueStore\<close>: each calls the method of
      \<open>storage_\<close> of the same name (\<open>del\<close> calls \<open>remove\<close>), through a \<open>const_cast\<close>
      where the method of \<open>KeyValueStore\<close> is \<open>const\<close>.\<close>
  "KeyValueStore_run (Cmd_set key val t) store now =
     (let (r, s) = set_value store now key val t in (Reply_bool r, s))"
| "KeyValueStore_run (Cmd_get key) store now = returning Reply_string (get store now key)"
| "KeyValueStore_run (Cmd_lpush key vals) store now = returning Reply_size (lpush store now key vals)"
| "KeyValueStore_run (Cmd_rpush key vals) store now = returning Reply_size (rpush store now key vals)"
| "KeyValueStore_run (Cmd_lpop key) store now = returning Reply_string (lpop store now key)"
| "KeyValueStore_run (Cmd_rpop key) store now = returning Reply_string (rpop store now key)"
| "KeyValueStore_run (Cmd_lrange key start stop) store now =
     returning Reply_list (lrange store now key start stop)"
| "KeyValueStore_run (Cmd_llen key) store now = returning Reply_size (llen store now key)"
| "KeyValueStore_run (Cmd_sadd key members) store now =
     returning Reply_size (sadd store now key members)"
| "KeyValueStore_run (Cmd_srem key members) store now =
     returning Reply_size (srem store now key members)"
| "KeyValueStore_run (Cmd_sismember key member) store now =
     returning Reply_bool (sismember store now key member)"
| "KeyValueStore_run (Cmd_smembers key) store now = returning Reply_set (smembers store now key)"
| "KeyValueStore_run (Cmd_scard key) store now = returning Reply_size (scard store now key)"
| "KeyValueStore_run (Cmd_hset key field val) store now =
     returning Reply_bool (hset store now key field val)"
| "KeyValueStore_run (Cmd_hget key field) store now =
     returning Reply_string (hget store now key field)"
| "KeyValueStore_run (Cmd_hdel key flds) store now = returning Reply_size (hdel store now key flds)"
| "KeyValueStore_run (Cmd_hexists key field) store now =
     returning Reply_bool (hexists store now key field)"
| "KeyValueStore_run (Cmd_hgetall key) store now = returning Reply_hash (hgetall store now key)"
| "KeyValueStore_run (Cmd_hlen key) store now = returning Reply_size (hlen store now key)"
| "KeyValueStore_run (Cmd_del key) store now =
     (let (r, s) = remove store key in (Reply_bool r, s))"
| "KeyValueStore_run (Cmd_exists key) store now =
     (let (r, s) = exists store now key in (Reply_bool r, s))"
| "KeyValueStore_run (Cmd_type key) store now =
     (let (r, s) = type store now key in (Reply_type r, s))"
| "KeyValueStore_run (Cmd_expire key secs) store now =
     (let (r, s) = expire store now key secs in (Reply_bool r, s))"
| "KeyValueStore_run (Cmd_ttl key) store now =
     (let (r, s) = ttl store now key in (Reply_int r, s))"
| "KeyValueStore_run Cmd_keys store now = (Reply_set (keys store now), store)"
| "KeyValueStore_run Cmd_size store now = (Reply_size (size_store store now), store)"
| "KeyValueStore_run Cmd_clear store now = (Reply_void, clear store)"

datatype lock_mode = shared_lock | unique_lock

primrec ThreadSafeStore_lock :: "command \<Rightarrow> lock_mode" where
  \<comment> \<open>The lock each method of \<open>ThreadSafeStore\<close> takes on \<open>mutex_\<close> for the whole call.\<close>
  "ThreadSafeStore_lock (Cmd_set _ _ _) = unique_lock"
| "ThreadSafeStore_lock (Cmd_get _) = shared_lock"
| "ThreadSafeStore_lock (Cmd_lpush _ _) = unique_lock"
| "ThreadSafeStore_lock (Cmd_rpush _ _) = unique_lock"
| "ThreadSafeStore_lock (Cmd_lpop _) = unique_lock"
| "ThreadSafeStore_lock (Cmd_rpop _) = unique_lock"
| "ThreadSafeStore_lock (Cmd_lrange _ _ _) = shared_lock"
| "ThreadSafeStore_lock (Cmd_llen _) = shared_lock"
| "ThreadSafeStore_lock (Cmd_sadd _ _) = unique_lock"
| "ThreadSafeStore_lock (Cmd_srem _ _) = unique_lock"
| "ThreadSafeStore_lock (Cmd_sismember _ _) = shared_lock"
| "ThreadSafeStore_lock (Cmd_smembers _) = shared_lock"
| "ThreadSafeStore_lock (Cmd_scard _) = shared_lock"
| "ThreadSafeStore_lock (Cmd_hset _ _ _) = unique_lock"
| "ThreadSafeStore_lock (Cmd_hget _ _) = shared_lock"
| "ThreadSafeStore_lock (Cmd_hdel _ _) = unique_lock"
| "ThreadSafeStore_lock (Cmd_hexists _ _) = shared_lock"
| "ThreadSafeStore_lock (Cmd_hgetall _) = shared_lock"
| "ThreadSafeStore_lock (Cmd_hlen _) = shared_lock"
| "ThreadSafeStore_lock (Cmd_del _) = unique_lock"
| "ThreadSafeStore_lock (Cmd_exists _) = shared_lock"
| "ThreadSafeStore_lock (Cmd_type _) = shared_lock"
| "ThreadSafeStore_lock (Cmd_expire _ _) = unique_lock"
| "ThreadSafeStore_lock (Cmd_ttl _) = shared_lock"
| "ThreadSafeStore_lock Cmd_keys = shared_lock"
| "ThreadSafeStore_lock Cmd_size = shared_lock"
| "ThreadSafeStore_lock Cmd_clear = unique_lock"

definition ThreadSafeStore_run :: "command \<Rightarrow> StorageEngine \<Rightarrow> TimePoint \<Rightarrow> reply \<times> StorageEngine" where
  \<comment> \<open>Each method takes its lock and forwards to \<open>store_\<close>, the \<open>KeyValueStore\<close>.  The
      model runs one call at a time: the lock decides nothing about the result.\<close>
  "ThreadSafeStore_run c store now = KeyValueStore_run c store now"

section \<open>The specification's reading of \<open>range\<close>\<close>

text \<open>
  The words of the specification for \<open>range(key, start, stop)\<close> on a sequence of \<open>n\<close>
  elements, written independently of \<open>lrange\<close>: a negative index \<open>i\<close> resolves to
  \<open>n + i\<close>; each bound is then clamped into \<open>[0, n - 1]\<close>; the result is empty when the
  clamped start exceeds the clamped stop and otherwise lists the elements at the positions
  from the clamped start to the clamped stop, both included.
\<close>

definition resolve_index :: "nat \<Rightarrow> int \<Rightarrow> int" where
  "resolve_index n i = (if i < 0 then int n + i else i)"

definition clamp_index :: "nat \<Rightarrow> int \<Rightarrow> int" where
  "clamp_index n i = (if i < 0 then 0 else if i > int n - 1 then int n - 1 else i)"

definition range_spec :: "'a list \<Rightarrow> int \<Rightarrow> int \<Rightarrow> 'a list" where
  "range_spec xs start stop =
     (let n = length xs;
          a = clamp_index n (resolve_index n start);
          b = clamp_index n (resolve_index n stop)
      in if a > b then [] else map (\<lambda>i. xs ! nat i) [a..b])"

section \<open>Basic facts about the engine\<close>

lemma isExpired_live:
  "fmlookup store key = Some v \<Longrightarrow> \<not> RedisValue_isExpired v now \<Longrightarrow>
   isExpired store now key = (False, store)"
  by (simp add: isExpired_def)

lemma isExpired_absent:
  "fmlookup store key = None \<Longrightarrow> isExpired store now key = (False, store)"
  by (simp add: isExpired_def)

lemma isExpired_dead:
  "fmlookup store key = Some v \<Longrightarrow> RedisValue_isExpired v now \<Longrightarrow>
   isExpired store now key = (True, fmdrop key store)"
  by (simp add: isExpired_def)

lemma exists_absent: "fmlookup store key = None \<Longrightarrow> exists store now key = (False, store)"
  by (simp add: exists_def isExpired_absent fmdom_notI)

lemma type_absent: "fmlookup store key = None \<Longrightarrow> type store now key = (None, store)"
  by (simp add: type_def isExpired_absent)

lemma smembers_live:
  assumes "fmlookup store key = Some v" and "\<not> RedisValue_isExpired v now"
    and "data v = RedisSet S"
  shows "smembers store now key = (Inr S, store)"
  using assms by (simp add: smembers_def isExpired_live getType_def)

lemma lrange_live_list:
  assumes "fmlookup store key = Some v" and "\<not> RedisValue_isExpired v now"
    and "data v = RedisList xs"
  shows "lrange store now key start stop =
     (let size = int (length xs);
          start1 = (if start < 0 then size + start else start);
          stop1 = (if stop < 0 then size + stop else stop);
          start2 = max 0 (min start1 (size - 1));
          stop2 = max 0 (min stop1 (size - 1))
      in if start2 > stop2 then (Inr [], store)
         else (vector_range xs start2 (stop2 + 1), store))"
  using assms by (simp add: lrange_def isExpired_live getType_def)

subsection \<open>The three loops\<close>

lemma sadd_loop_eq:
  "sadd_loop members S added =
     (S |\<union>| fset_of_list members, added + fcard (fset_of_list members |-| S))"
proof (induction members arbitrary: S added)
  case Nil
  then show ?case by simp
next
  case (Cons m ms)
  show ?case
  proof (cases "m |\<in>| S")
    case True
    then have "finsert m (fset_of_list ms) |-| S = fset_of_list ms |-| S" by auto
    with True Cons show ?thesis by (simp add: finsert_absorb)
  next
    case False
    have "finsert m (fset_of_list ms) |-| S = finsert m (fset_of_list ms |-| finsert m S)"
      using False by auto
    moreover have "m |\<notin>| fset_of_list ms |-| finsert m S" by auto
    ultimately show ?thesis using False Cons by (simp add: fcard_finsert_disjoint)
  qed
qed

lemma srem_loop_eq:
  "srem_loop members S removed =
     (S |-| fset_of_list members, removed + fcard (S |\<inter>| fset_of_list members))"
proof (induction members arbitrary: S removed)
  case Nil
  then show ?case by simp
next
  case (Cons m ms)
  show ?case
  proof (cases "m |\<in>| S")
    case True
    have a: "S |-| {|m|} |-| fset_of_list ms = S |-| finsert m (fset_of_list ms)" by auto
    have b: "S |\<inter>| finsert m (fset_of_list ms) = finsert m ((S |-| {|m|}) |\<inter>| fset_of_list ms)"
      using True by auto
    have c: "m |\<notin>| (S |-| {|m|}) |\<inter>| fset_of_list ms" by auto
    show ?thesis using True Cons a by (simp add: b fcard_finsert_disjoint[OF c])
  next
    case False
    then have "S |\<inter>| finsert m (fset_of_list ms) = S |\<inter>| fset_of_list ms" by auto
    moreover have "S |-| finsert m (fset_of_list ms) = S |-| fset_of_list ms"
      using False by auto
    ultimately show ?thesis using False Cons by simp
  qed
qed

lemma hdel_loop_eq:
  "hdel_loop flds hash deleted =
     (fmdrop_fset (fset_of_list flds) hash,
      deleted + fcard (fmdom hash |\<inter>| fset_of_list flds))"
proof (induction flds arbitrary: hash deleted)
  case Nil
  then show ?case by simp
next
  case (Cons f fs)
  have d: "fmdrop_fset (fset_of_list fs) (fmdrop f hash)
             = fmdrop_fset (finsert f (fset_of_list fs)) hash"
    by (rule fmap_ext) auto
  show ?case
  proof (cases "f |\<in>| fmdom hash")
    case True
    have b: "fmdom hash |\<inter>| finsert f (fset_of_list fs)
               = finsert f ((fmdom hash |-| {|f|}) |\<inter>| fset_of_list fs)"
      using True by auto
    have c: "f |\<notin>| (fmdom hash |-| {|f|}) |\<inter>| fset_of_list fs" by auto
    show ?thesis using True Cons d by (simp add: b fcard_finsert_disjoint[OF c])
  next
    case False
    then have "fmdom hash |\<inter>| finsert f (fset_of_list fs) = fmdom hash |\<inter>| fset_of_list fs"
      by auto
    moreover have "fmdrop_fset (finsert f (fset_of_list fs)) hash
                     = fmdrop_fset (fset_of_list fs) hash"
      using False d by (simp add: fmdrop_idle)
    ultimately show ?thesis using False Cons by simp
  qed
qed

subsection \<open>An iterator range with an inclusive upper bound\<close>

lemma vector_range_inclusive:
  assumes "0 \<le> a" and "a \<le> b" and "b < int (length xs)"
  shows "vector_range xs a (b + 1) = Inr (map (\<lambda>i. xs ! nat i) [a..b])"
proof -
  have "take (nat (b + 1 - a)) (drop (nat a) xs) = map (\<lambda>i. xs ! nat i) [a..b]"
  proof (rule nth_equalityI)
    show "length (take (nat (b + 1 - a)) (drop (nat a) xs))
            = length (map (\<lambda>i. xs ! nat i) [a..b])"
      using assms by simp
  next
    fix k assume "k < length (take (nat (b + 1 - a)) (drop (nat a) xs))"
    then have "k < nat (b + 1 - a)" by simp
    then have k: "int k < b + 1 - a" by linarith
    then have "[a..b] ! k = a + int k" by simp
    moreover have "nat a + k = nat (a + int k)" using assms by simp
    ultimately show "take (nat (b + 1 - a)) (drop (nat a) xs) ! k
                       = map (\<lambda>i. xs ! nat i) [a..b] ! k"
      using k assms by simp
  qed
  then show ?thesis using assms by (simp add: vector_range_def)
qed

subsection \<open>Operations of one variant on an entry of another\<close>

lemma list_ops_on_other_variant:
  assumes "fmlookup store key = Some v" and "\<not> RedisValue_isExpired v now"
    and "getType v \<noteq> LIST"
  shows "lpush store now key vals = (Inr 0, store)"
    and "rpush store now key vals = (Inr 0, store)"
    and "lpop store now key = (Inr None, store)"
    and "rpop store now key = (Inr None, store)"
    and "lrange store now key start stop = (Inr [], store)"
    and "llen store now key = (Inr 0, store)"
  using assms
  by (simp_all add: lpush_def rpush_def lpop_def rpop_def lrange_def llen_def isExpired_live)

lemma set_ops_on_other_variant:
  assumes "fmlookup store key = Some v" and "\<not> RedisValue_isExpired v now"
    and "getType v \<noteq> SET"
  shows "sadd store now key members = (Inr 0, store)"
    and "srem store now key members = (Inr 0, store)"
    and "sismember store now key member = (Inr False, store)"
    and "smembers store now key = (Inr {||}, store)"
    and "scard store now key = (Inr 0, store)"
  using assms
  by (simp_all add: sadd_def srem_def sismember_def smembers_def scard_def isExpired_live)

lemma hash_ops_on_other_variant:
  assumes "fmlookup store key = Some v" and "\<not> RedisValue_isExpired v now"
    and "getType v \<noteq> HASH"
  shows "hset store now key field val = (Inr False, store)"
    and "hdel store now key flds = (Inr 0, store)"
    and "hget store now key field = (Inr None, store)"
    and "hexists store now key field = (Inr False, store)"
    and "hgetall store now key = (Inr fmempty, store)"
    and "hlen store now key = (Inr 0, store)"
  using assms
  by (simp_all add: hset_def hdel_def hget_def hexists_def hgetall_def hlen_def isExpired_live)

lemma get_on_other_variant:
  assumes "fmlookup store key = Some v" and "\<not> RedisValue_isExpired v now"
    and "getType v \<noteq> STRING"
  shows "get store now key = (Inr None, store)"
  using assms by (simp add: get_def isExpired_live)

lemma fmupd_fmdrop_same: "fmupd key x (fmdrop key store) = fmupd key x store"
  by (rule fmap_ext) simp

subsection \<open>What the read operations do to the map\<close>

text \<open>
  Each keyed read operation leaves behind the map that \<open>isExpired\<close> leaves behind;
  \<open>ttl\<close> has its own test.  Under a shared lock the map is therefore either unchanged or
  has lost the key of the command, and only when that key's deadline is not after the
  reading of the clock.
\<close>

lemma read_ops_store:
  "snd (get store now key) = snd (isExpired store now key)"
  "snd (lrange store now key start stop) = snd (isExpired store now key)"
  "snd (llen store now key) = snd (isExpired store now key)"
  "snd (sismember store now key member) = snd (isExpired store now key)"
  "snd (smembers store now key) = snd (isExpired store now key)"
  "snd (scard store now key) = snd (isExpired store now key)"
  "snd (hget store now key field) = snd (isExpired store now key)"
  "snd (hexists store now key field) = snd (isExpired store now key)"
  "snd (hgetall store now key) = snd (isExpired store now key)"
  "snd (hlen store now key) = snd (isExpired store now key)"
  "snd (exists store now key) = snd (isExpired store now key)"
  "snd (type store now key) = snd (isExpired store now key)"
  by (simp_all add: get_def lrange_def llen_def sismember_def smembers_def scard_def hget_def
      hexists_def hgetall_def hlen_def exists_def type_def Let_def
      split: prod.splits option.splits sum.splits)

lemma ttl_cases:
  "fmlookup store key = None \<Longrightarrow> ttl store now key = (- 2, store)"
  "fmlookup store key = Some v \<Longrightarrow> expiry v = None \<Longrightarrow> ttl store now key = (- 1, store)"
  "fmlookup store key = Some v \<Longrightarrow> expiry v = Some d \<Longrightarrow> d < now \<Longrightarrow>
     ttl store now key = (- 2, fmdrop key store)"
  "fmlookup store key = Some v \<Longrightarrow> expiry v = Some d \<Longrightarrow> now < d \<Longrightarrow>
     ttl store now key = ((d - now) div ticks_per_second, store)"
  by (simp_all add: ttl_def)

lemma shared_lock_frame:
  assumes "ThreadSafeStore_lock c = shared_lock"
  shows "snd (ThreadSafeStore_run c store now) = store \<or>
         (\<exists>key v d. fmlookup store key = Some v \<and> expiry v = Some d \<and> d \<le> now \<and>
            snd (ThreadSafeStore_run c store now) = fmdrop key store)"
proof -
  have ex: "snd (isExpired store now key) = store \<or>
         (\<exists>v d. fmlookup store key = Some v \<and> expiry v = Some d \<and> d \<le> now \<and>
            snd (isExpired store now key) = fmdrop key store)" for key
    by (auto simp: isExpired_def RedisValue_isExpired_def split: option.splits)
  have tt: "snd (ttl store now key) = store \<or>
         (\<exists>v d. fmlookup store key = Some v \<and> expiry v = Some d \<and> d \<le> now \<and>
            snd (ttl store now key) = fmdrop key store)" for key
    by (auto simp: ttl_def split: option.splits)
  have ret: "snd (returning w r) = snd r" for w :: "'a \<Rightarrow> reply" and r
    by (simp add: returning_def split: sum.splits)
  show ?thesis
    using assms
    by (cases c)
       (simp_all add: ThreadSafeStore_run_def ret read_ops_store case_prod_beta,
        (use ex tt in \<open>metis snd_conv\<close>)+)
qed

section \<open>The claims\<close>

text \<open>
  C5.  For a key that holds a sequence \<open>xs\<close> with at least one element (the entry is
  present and not past its deadline), \<open>lrange\<close> returns without a fault, leaves the store as
  it is, and its result is what the specification describes: negative indices resolved
  against the length, both bounds clamped into \<open>[0, n - 1]\<close>, the empty sequence when the
  clamped start exceeds the clamped stop, the inclusive slice between them otherwise.
\<close>

theorem lrange_meets_range_spec:
  assumes "fmlookup store key = Some v" and "\<not> RedisValue_isExpired v now"
    and "data v = RedisList xs" and "xs \<noteq> []"
  shows "lrange store now key start stop = (Inr (range_spec xs start stop), store)"
proof -
  define n where "n = length xs"
  define a where "a = clamp_index n (resolve_index n start)"
  define b where "b = clamp_index n (resolve_index n stop)"
  have n: "0 < n" using assms(4) by (simp add: n_def)
  have a: "max 0 (min (if start < 0 then int n + start else start) (int n - 1)) = a"
    using n by (simp add: a_def clamp_index_def resolve_index_def)
  have b: "max 0 (min (if stop < 0 then int n + stop else stop) (int n - 1)) = b"
    using n by (simp add: b_def clamp_index_def resolve_index_def)
  have ra: "0 \<le> a" "b < int n" using n by (simp_all add: a[symmetric] b[symmetric])
  have lr: "lrange store now key start stop =
      (if a > b then (Inr [], store) else (vector_range xs a (b + 1), store))"
    unfolding lrange_live_list[OF assms(1-3)] Let_def n_def[symmetric] a b ..
  have sp: "range_spec xs start stop = (if a > b then [] else map (\<lambda>i. xs ! nat i) [a..b])"
    unfolding range_spec_def Let_def n_def[symmetric] a_def b_def ..
  show ?thesis
  proof (cases "a > b")
    case True
    then show ?thesis by (simp add: lr sp)
  next
    case False
    then have "vector_range xs a (b + 1) = Inr (map (\<lambda>i. xs ! nat i) [a..b])"
      using ra by (intro vector_range_inclusive) (simp_all add: n_def)
    with False show ?thesis by (simp add: lr sp)
  qed
qed

theorem lrange_meets_range_spec_witness:
  "fmlookup (fmupd ''L'' \<lparr>data = RedisList [''z'', ''x'', ''y''], expiry = None\<rparr> fmempty) ''L''
     = Some \<lparr>data = RedisList [''z'', ''x'', ''y''], expiry = None\<rparr> \<and>
   \<not> RedisValue_isExpired \<lparr>data = RedisList [''z'', ''x'', ''y''], expiry = None\<rparr> 0 \<and>
   [''z'', ''x'', ''y''] \<noteq> [] \<and>
   lrange (fmupd ''L'' \<lparr>data = RedisList [''z'', ''x'', ''y''], expiry = None\<rparr> fmempty) 0 ''L'' (- 2) 10
     = (Inr [''x'', ''y''],
        fmupd ''L'' \<lparr>data = RedisList [''z'', ''x'', ''y''], expiry = None\<rparr> fmempty)"
proof -
  let ?v = "\<lparr>data = RedisList [''z'', ''x'', ''y''], expiry = None\<rparr>"
  let ?s = "fmupd ''L'' ?v fmempty"
  have h1: "fmlookup ?s ''L'' = Some ?v" by simp
  have h2: "\<not> RedisValue_isExpired ?v 0" by (simp add: RedisValue_isExpired_def)
  have h3: "data ?v = RedisList [''z'', ''x'', ''y'']" by simp
  have h4: "[''z'', ''x'', ''y''] \<noteq> []" by simp
  have r: "range_spec [''z'', ''x'', ''y''] (- 2) 10 = [''x'', ''y'']"
    by (simp add: range_spec_def clamp_index_def resolve_index_def upto.simps)
  from lrange_meets_range_spec[OF h1 h2 h3 h4, of "- 2" 10] h1 h2 r show ?thesis by simp
qed

text \<open>
  C2.  As stated the claim fails: after the two pushes, \<open>lrange "L" 5 10\<close> does not
  return the empty sequence.  Both bounds are clamped to the last index, \<open>2\<close>, so the
  range is \<open>[2, 2]\<close> and the result is the last element.
\<close>

theorem range_5_10_not_empty:
  "fst (lrange (snd (lpush (snd (rpush fmempty 0 ''L'' [''x'', ''y''])) 0 ''L'' [''z'']))
          0 ''L'' 5 10) \<noteq> Inr []"
  by (simp add: rpush_def lpush_def lrange_def vector_range_def isExpired_def
      RedisValue_isExpired_def RedisValue_of_def getType_def Let_def)

text \<open>
  C2, amended.  Starting from a store in which key \<open>"L"\<close> is absent, whatever the
  clock reads at each call: \<open>rpush "L" ["x","y"]\<close> returns 2, \<open>lpush "L" ["z"]\<close>
  returns 3, then \<open>lrange "L" 0 -1\<close> returns \<open>["z","x","y"]\<close> and \<open>lrange "L" 5 10\<close>
  returns \<open>["y"]\<close>.
\<close>

theorem push_then_range_scenario:
  assumes "fmlookup store ''L'' = None"
  shows "fst (rpush store t1 ''L'' [''x'', ''y'']) = Inr 2 \<and>
         fst (lpush (snd (rpush store t1 ''L'' [''x'', ''y''])) t2 ''L'' [''z'']) = Inr 3 \<and>
         fst (lrange (snd (lpush (snd (rpush store t1 ''L'' [''x'', ''y''])) t2 ''L'' [''z'']))
                t3 ''L'' 0 (- 1)) = Inr [''z'', ''x'', ''y''] \<and>
         fst (lrange (snd (lpush (snd (rpush store t1 ''L'' [''x'', ''y''])) t2 ''L'' [''z'']))
                t4 ''L'' 5 10) = Inr [''y'']"
proof -
  let ?v1 = "RedisValue_of (RedisList [''x'', ''y''])"
  let ?s1 = "fmupd ''L'' ?v1 store"
  let ?v2 = "?v1\<lparr>data := RedisList [''z'', ''x'', ''y'']\<rparr>"
  let ?s2 = "fmupd ''L'' ?v2 store"
  have live: "\<not> RedisValue_isExpired ?v1 t" "\<not> RedisValue_isExpired ?v2 t" for t
    by (simp_all add: RedisValue_of_def RedisValue_isExpired_def)
  have r: "rpush store t1 ''L'' [''x'', ''y''] = (Inr 2, ?s1)"
    using assms by (simp add: rpush_def isExpired_absent)
  have l1: "fmlookup ?s1 ''L'' = Some ?v1" by simp
  have l: "lpush ?s1 t2 ''L'' [''z''] = (Inr 3, ?s2)"
    unfolding lpush_def isExpired_live[OF l1 live(1)]
    by (simp add: getType_def RedisValue_of_def)
  have l2: "fmlookup ?s2 ''L'' = Some ?v2" by simp
  have d2: "data ?v2 = RedisList [''z'', ''x'', ''y'']" by simp
  have a: "lrange ?s2 t3 ''L'' 0 (- 1) = (Inr [''z'', ''x'', ''y''], ?s2)"
    unfolding lrange_live_list[OF l2 live(2) d2] by (simp add: vector_range_def)
  have b: "lrange ?s2 t4 ''L'' 5 10 = (Inr [''y''], ?s2)"
    unfolding lrange_live_list[OF l2 live(2) d2] by (simp add: vector_range_def)
  show ?thesis by (simp add: r l a b)
qed

theorem push_then_range_scenario_witness:
  "fmlookup (fmempty :: StorageEngine) ''L'' = None \<and>
   fst (rpush fmempty 0 ''L'' [''x'', ''y'']) = Inr 2 \<and>
   fst (lpush (snd (rpush fmempty 0 ''L'' [''x'', ''y''])) 0 ''L'' [''z'']) = Inr 3 \<and>
   fst (lrange (snd (lpush (snd (rpush fmempty 0 ''L'' [''x'', ''y''])) 0 ''L'' [''z'']))
          0 ''L'' 0 (- 1)) = Inr [''z'', ''x'', ''y''] \<and>
   fst (lrange (snd (lpush (snd (rpush fmempty 0 ''L'' [''x'', ''y''])) 0 ''L'' [''z'']))
          0 ''L'' 5 10) = Inr [''y'']"
proof -
  have h: "fmlookup (fmempty :: StorageEngine) ''L'' = None" by simp
  from push_then_range_scenario[OF h, of 0 0 0 0] h show ?thesis by simp
qed

text \<open>
  C4.  Let \<open>key\<close> hold an entry that is not expired.  If the entry is not a list, the six
  list operations return \<open>0\<close>, no value or the empty sequence; if it is not a set, the
  five set operations return \<open>0\<close>, \<open>false\<close> or the empty set; if it is not a hash, the
  six hash operations return \<open>false\<close>, \<open>0\<close>, no value or the empty map; if it is not a
  string, \<open>get\<close> returns no value.  In each case the operation returns normally (the
  result is an \<open>Inr\<close>: \<open>std::get\<close> does not throw) and the store it leaves behind is
  the store it was given, so the entry keeps its tag and its contents.  \<open>set\<close> is not
  subject to this: it returns \<open>true\<close> and afterwards the key holds the new string.
\<close>

theorem type_mismatch_is_silent_no_op:
  assumes "fmlookup store key = Some v" and "\<not> RedisValue_isExpired v now"
  shows "(getType v \<noteq> LIST \<longrightarrow>
            lpush store now key vals = (Inr 0, store) \<and>
            rpush store now key vals = (Inr 0, store) \<and>
            lpop store now key = (Inr None, store) \<and>
            rpop store now key = (Inr None, store) \<and>
            lrange store now key start stop = (Inr [], store) \<and>
            llen store now key = (Inr 0, store)) \<and>
         (getType v \<noteq> SET \<longrightarrow>
            sadd store now key members = (Inr 0, store) \<and>
            srem store now key members = (Inr 0, store) \<and>
            sismember store now key member = (Inr False, store) \<and>
            smembers store now key = (Inr {||}, store) \<and>
            scard store now key = (Inr 0, store)) \<and>
         (getType v \<noteq> HASH \<longrightarrow>
            hset store now key field val = (Inr False, store) \<and>
            hdel store now key flds = (Inr 0, store) \<and>
            hget store now key field = (Inr None, store) \<and>
            hexists store now key field = (Inr False, store) \<and>
            hgetall store now key = (Inr fmempty, store) \<and>
            hlen store now key = (Inr 0, store)) \<and>
         (getType v \<noteq> STRING \<longrightarrow> get store now key = (Inr None, store)) \<and>
         fst (set_value store now key val t) = True \<and>
         fmlookup (snd (set_value store now key val t)) key
           = Some (RedisValue_ttl now (RedisString val) t) \<and>
         getType (RedisValue_ttl now (RedisString val) t) = STRING"
proof -
  have "getType (RedisValue_ttl now (RedisString val) t) = STRING"
    by (simp add: RedisValue_ttl_def getType_def)
  then show ?thesis
    using list_ops_on_other_variant[OF assms] set_ops_on_other_variant[OF assms]
      hash_ops_on_other_variant[OF assms] get_on_other_variant[OF assms]
    by (simp add: set_value_def)
qed

theorem type_mismatch_is_silent_no_op_witness:
  "fmlookup (fmupd ''k'' \<lparr>data = RedisList [''a''], expiry = Some 9\<rparr> fmempty) ''k''
     = Some \<lparr>data = RedisList [''a''], expiry = Some 9\<rparr> \<and>
   \<not> RedisValue_isExpired \<lparr>data = RedisList [''a''], expiry = Some 9\<rparr> 7 \<and>
   getType \<lparr>data = RedisList [''a''], expiry = Some 9\<rparr> \<noteq> SET \<and>
   getType \<lparr>data = RedisList [''a''], expiry = Some 9\<rparr> \<noteq> HASH \<and>
   getType \<lparr>data = RedisList [''a''], expiry = Some 9\<rparr> \<noteq> STRING \<and>
   sadd (fmupd ''k'' \<lparr>data = RedisList [''a''], expiry = Some 9\<rparr> fmempty) 7 ''k'' [''m'']
     = (Inr 0, fmupd ''k'' \<lparr>data = RedisList [''a''], expiry = Some 9\<rparr> fmempty) \<and>
   hset (fmupd ''k'' \<lparr>data = RedisList [''a''], expiry = Some 9\<rparr> fmempty) 7 ''k'' ''f'' ''x''
     = (Inr False, fmupd ''k'' \<lparr>data = RedisList [''a''], expiry = Some 9\<rparr> fmempty) \<and>
   get (fmupd ''k'' \<lparr>data = RedisList [''a''], expiry = Some 9\<rparr> fmempty) 7 ''k''
     = (Inr None, fmupd ''k'' \<lparr>data = RedisList [''a''], expiry = Some 9\<rparr> fmempty) \<and>
   fmlookup (fmupd ''k'' \<lparr>data = RedisSet {|''m''|}, expiry = None\<rparr> fmempty) ''k''
     = Some \<lparr>data = RedisSet {|''m''|}, expiry = None\<rparr> \<and>
   \<not> RedisValue_isExpired \<lparr>data = RedisSet {|''m''|}, expiry = None\<rparr> 7 \<and>
   getType \<lparr>data = RedisSet {|''m''|}, expiry = None\<rparr> \<noteq> LIST \<and>
   lpush (fmupd ''k'' \<lparr>data = RedisSet {|''m''|}, expiry = None\<rparr> fmempty) 7 ''k'' [''a'']
     = (Inr 0, fmupd ''k'' \<lparr>data = RedisSet {|''m''|}, expiry = None\<rparr> fmempty) \<and>
   lpop (fmupd ''k'' \<lparr>data = RedisSet {|''m''|}, expiry = None\<rparr> fmempty) 7 ''k''
     = (Inr None, fmupd ''k'' \<lparr>data = RedisSet {|''m''|}, expiry = None\<rparr> fmempty)"
proof -
  let ?v = "\<lparr>data = RedisList [''a''], expiry = Some 9\<rparr>"
  let ?s = "fmupd ''k'' ?v fmempty"
  let ?w = "\<lparr>data = RedisSet {|''m''|}, expiry = None\<rparr>"
  let ?r = "fmupd ''k'' ?w fmempty"
  have v1: "fmlookup ?s ''k'' = Some ?v" by simp
  have v2: "\<not> RedisValue_isExpired ?v 7" by (simp add: RedisValue_isExpired_def)
  have v3: "getType ?v \<noteq> SET" "getType ?v \<noteq> HASH" "getType ?v \<noteq> STRING"
    by (simp_all add: getType_def)
  have w1: "fmlookup ?r ''k'' = Some ?w" by simp
  have w2: "\<not> RedisValue_isExpired ?w 7" by (simp add: RedisValue_isExpired_def)
  have w3: "getType ?w \<noteq> LIST" by (simp add: getType_def)
  from type_mismatch_is_silent_no_op[OF v1 v2, where vals = "[]" and start = 0 and stop = 0 and members = "[''m'']"
            and member = "''m''" and field = "''f''" and val = "''x''" and flds = "[]" and t = 0]
       type_mismatch_is_silent_no_op[OF w1 w2, where vals = "[''a'']" and start = 0 and stop = 0 and members = "[]"
            and member = "''m''" and field = "''f''" and val = "''x''" and flds = "[]" and t = 0]
       v1 v2 v3 w1 w2 w3
  show ?thesis by simp
qed

text \<open>
  C10.  On a key that is absent (or whose entry is expired at the call), \<open>lpush\<close>,
  \<open>rpush\<close> and \<open>sadd\<close> with an empty batch return \<open>0\<close> and store an entry with an empty
  list, respectively an empty set, and no deadline.  On the store they leave behind, at
  any later reading \<open>now'\<close> of the clock, \<open>exists\<close> is true, \<open>type\<close> is \<open>LIST\<close>
  (\<open>SET\<close>), \<open>llen\<close> (\<open>scard\<close>) is \<open>0\<close>, and these three leave the entry in place.
\<close>

theorem empty_batch_creates_empty_container:
  assumes "fmlookup store key = None \<or>
           (\<exists>v. fmlookup store key = Some v \<and> RedisValue_isExpired v now)"
  shows "lpush store now key [] = (Inr 0, fmupd key (RedisValue_of (RedisList [])) store) \<and>
         rpush store now key [] = (Inr 0, fmupd key (RedisValue_of (RedisList [])) store) \<and>
         sadd store now key [] = (Inr 0, fmupd key (RedisValue_of (RedisSet {||})) store) \<and>
         exists (fmupd key (RedisValue_of (RedisList [])) store) now' key
           = (True, fmupd key (RedisValue_of (RedisList [])) store) \<and>
         type (fmupd key (RedisValue_of (RedisList [])) store) now' key
           = (Some LIST, fmupd key (RedisValue_of (RedisList [])) store) \<and>
         llen (fmupd key (RedisValue_of (RedisList [])) store) now' key
           = (Inr 0, fmupd key (RedisValue_of (RedisList [])) store) \<and>
         exists (fmupd key (RedisValue_of (RedisSet {||})) store) now' key
           = (True, fmupd key (RedisValue_of (RedisSet {||})) store) \<and>
         type (fmupd key (RedisValue_of (RedisSet {||})) store) now' key
           = (Some SET, fmupd key (RedisValue_of (RedisSet {||})) store) \<and>
         scard (fmupd key (RedisValue_of (RedisSet {||})) store) now' key
           = (Inr 0, fmupd key (RedisValue_of (RedisSet {||})) store)"
proof -
  have push: "lpush store now key [] = (Inr 0, fmupd key (RedisValue_of (RedisList [])) store) \<and>
         rpush store now key [] = (Inr 0, fmupd key (RedisValue_of (RedisList [])) store) \<and>
         sadd store now key [] = (Inr 0, fmupd key (RedisValue_of (RedisSet {||})) store)"
  proof (cases "fmlookup store key")
    case None
    then show ?thesis
      by (simp add: lpush_def rpush_def sadd_def isExpired_absent Let_def)
  next
    case (Some v)
    with assms have "RedisValue_isExpired v now" by simp
    with Some show ?thesis
      by (simp add: lpush_def rpush_def sadd_def isExpired_dead Let_def fmupd_fmdrop_same)
  qed
  have live: "\<not> RedisValue_isExpired (RedisValue_of d) now'" for d
    by (simp add: RedisValue_of_def RedisValue_isExpired_def)
  have look: "fmlookup (fmupd key (RedisValue_of d) store) key = Some (RedisValue_of d)" for d
    by simp
  have after: "exists (fmupd key (RedisValue_of d) store) now' key
                 = (True, fmupd key (RedisValue_of d) store)"
              "type (fmupd key (RedisValue_of d) store) now' key
                 = (Some (classify d), fmupd key (RedisValue_of d) store)" for d
    unfolding exists_def type_def isExpired_live[OF look live]
    by (simp_all add: getType_def RedisValue_of_def)
  have "llen (fmupd key (RedisValue_of (RedisList [])) store) now' key
           = (Inr 0, fmupd key (RedisValue_of (RedisList [])) store)"
    unfolding llen_def isExpired_live[OF look live]
    by (simp add: getType_def RedisValue_of_def)
  moreover have "scard (fmupd key (RedisValue_of (RedisSet {||})) store) now' key
           = (Inr 0, fmupd key (RedisValue_of (RedisSet {||})) store)"
    unfolding scard_def isExpired_live[OF look live]
    by (simp add: getType_def RedisValue_of_def)
  ultimately show ?thesis using push after[of "RedisList []"] after[of "RedisSet {||}"] by simp
qed

theorem empty_batch_creates_empty_container_witness:
  "fmlookup (fmempty :: StorageEngine) ''k'' = None \<and>
   lpush fmempty 0 ''k'' [] = (Inr 0, fmupd ''k'' (RedisValue_of (RedisList [])) fmempty) \<and>
   rpush fmempty 0 ''k'' [] = (Inr 0, fmupd ''k'' (RedisValue_of (RedisList [])) fmempty) \<and>
   sadd fmempty 0 ''k'' [] = (Inr 0, fmupd ''k'' (RedisValue_of (RedisSet {||})) fmempty) \<and>
   fst (exists (fmupd ''k'' (RedisValue_of (RedisList [])) fmempty) 5 ''k'') = True \<and>
   fst (type (fmupd ''k'' (RedisValue_of (RedisList [])) fmempty) 5 ''k'') = Some LIST \<and>
   fst (llen (fmupd ''k'' (RedisValue_of (RedisList [])) fmempty) 5 ''k'') = Inr 0 \<and>
   fst (exists (fmupd ''k'' (RedisValue_of (RedisSet {||})) fmempty) 5 ''k'') = True \<and>
   fst (type (fmupd ''k'' (RedisValue_of (RedisSet {||})) fmempty) 5 ''k'') = Some SET \<and>
   fst (scard (fmupd ''k'' (RedisValue_of (RedisSet {||})) fmempty) 5 ''k'') = Inr 0"
proof -
  have h: "fmlookup (fmempty :: StorageEngine) ''k'' = None \<or>
           (\<exists>v. fmlookup (fmempty :: StorageEngine) ''k'' = Some v \<and> RedisValue_isExpired v 0)"
    by simp
  from empty_batch_creates_empty_container[OF h, of 5] show ?thesis by simp
qed


text \<open>
  C6.  Let \<open>key\<close> hold an entry that is not expired.  If it is a list of one element,
  \<open>lpop\<close> and \<open>rpop\<close> return that element and erase the key.  If it is a set all of whose
  members are in the batch, \<open>srem\<close> returns their number and erases the key; likewise
  \<open>hdel\<close> for a hash all of whose fields are in the batch.  On the store left behind, at
  any reading \<open>now'\<close> of the clock, \<open>exists\<close> is false and \<open>type\<close> returns nothing: no
  empty container stays behind.
\<close>

theorem emptied_container_is_deleted:
  assumes "fmlookup store key = Some v" and "\<not> RedisValue_isExpired v now"
  shows "(data v = RedisList [x] \<longrightarrow>
            lpop store now key = (Inr (Some x), fmdrop key store) \<and>
            rpop store now key = (Inr (Some x), fmdrop key store)) \<and>
         (data v = RedisSet S \<and> S |\<subseteq>| fset_of_list members \<longrightarrow>
            srem store now key members = (Inr (fcard S), fmdrop key store)) \<and>
         (data v = RedisHash hash \<and> fmdom hash |\<subseteq>| fset_of_list flds \<longrightarrow>
            hdel store now key flds = (Inr (fcard (fmdom hash)), fmdrop key store)) \<and>
         exists (fmdrop key store) now' key = (False, fmdrop key store) \<and>
         type (fmdrop key store) now' key = (None, fmdrop key store)"
proof -
  have l: "data v = RedisList [x] \<Longrightarrow>
            lpop store now key = (Inr (Some x), fmdrop key store) \<and>
            rpop store now key = (Inr (Some x), fmdrop key store)"
    using assms by (simp add: lpop_def rpop_def isExpired_live getType_def)
  have s: "srem store now key members = (Inr (fcard S), fmdrop key store)"
    if "data v = RedisSet S" "S |\<subseteq>| fset_of_list members"
  proof -
    have "S |-| fset_of_list members = {||}" "S |\<inter>| fset_of_list members = S"
      using that(2) by auto
    then show ?thesis
      using assms that(1) by (simp add: srem_def isExpired_live getType_def srem_loop_eq)
  qed
  have h: "hdel store now key flds = (Inr (fcard (fmdom hash)), fmdrop key store)"
    if "data v = RedisHash hash" "fmdom hash |\<subseteq>| fset_of_list flds"
  proof -
    have "fmdom hash |\<inter>| fset_of_list flds = fmdom hash"
      using that(2) by auto
    moreover have "fmdrop_fset (fset_of_list flds) hash = fmempty"
      by (rule fmap_ext) (use that(2) in \<open>auto simp: fmdom_notD\<close>)
    ultimately show ?thesis
      using assms that(1) by (simp add: hdel_def isExpired_live getType_def hdel_loop_eq)
  qed
  have g: "fmlookup (fmdrop key store) key = None" by simp
  show ?thesis using l s h exists_absent[OF g] type_absent[OF g] by simp
qed

theorem emptied_container_is_deleted_witness:
  "\<not> RedisValue_isExpired \<lparr>data = RedisList [''a''], expiry = None\<rparr> 3 \<and>
   lpop (fmupd ''k'' \<lparr>data = RedisList [''a''], expiry = None\<rparr> fmempty) 3 ''k''
     = (Inr (Some ''a''), fmempty) \<and>
   rpop (fmupd ''k'' \<lparr>data = RedisList [''a''], expiry = None\<rparr> fmempty) 3 ''k''
     = (Inr (Some ''a''), fmempty) \<and>
   {|''a'', ''b''|} \<noteq> {||} \<and> {|''a'', ''b''|} |\<subseteq>| fset_of_list [''b'', ''c'', ''a''] \<and>
   srem (fmupd ''k'' \<lparr>data = RedisSet {|''a'', ''b''|}, expiry = None\<rparr> fmempty) 3 ''k''
        [''b'', ''c'', ''a'']
     = (Inr 2, fmempty) \<and>
   fmupd ''f'' ''1'' fmempty \<noteq> fmempty \<and>
   fmdom (fmupd ''f'' ''1'' fmempty) |\<subseteq>| fset_of_list [''f''] \<and>
   hdel (fmupd ''k'' \<lparr>data = RedisHash (fmupd ''f'' ''1'' fmempty), expiry = None\<rparr> fmempty) 3 ''k''
        [''f'']
     = (Inr 1, fmempty) \<and>
   exists (fmempty :: StorageEngine) 4 ''k'' = (False, fmempty) \<and>
   type (fmempty :: StorageEngine) 4 ''k'' = (None, fmempty)"
proof -
  let ?l = "\<lparr>data = RedisList [''a''], expiry = None\<rparr>"
  let ?s = "\<lparr>data = RedisSet {|''a'', ''b''|}, expiry = None\<rparr>"
  let ?h = "\<lparr>data = RedisHash (fmupd ''f'' ''1'' fmempty), expiry = None\<rparr>"
  have live: "\<not> RedisValue_isExpired \<lparr>data = d, expiry = None\<rparr> 3" for d
    by (simp add: RedisValue_isExpired_def)
  have look: "fmlookup (fmupd ''k'' e fmempty) ''k'' = Some e" for e :: RedisValue
    by simp
  have drop: "fmdrop ''k'' (fmupd ''k'' e fmempty) = fmempty" for e :: RedisValue
    by (simp add: fmdrop_fmupd_same)
  have ne: "fmupd ''f'' ''1'' fmempty \<noteq> (fmempty :: (string, string) fmap)"
    by (metis fmempty_lookup fmupd_lookup option.distinct(1))
  have c2: "fcard {|''a'', ''b''|} = 2" by (simp add: fcard_finsert_if)
  from emptied_container_is_deleted[OF look[of ?l] live[of "RedisList [''a'']"], where x = "''a''" and S = "{||}" and members = "[]"
          and hash = fmempty and flds = "[]" and now' = 4]
       emptied_container_is_deleted[OF look[of ?s] live[of "RedisSet {|''a'', ''b''|}"], where x = "''a''" and S = "{|''a'', ''b''|}"
          and members = "[''b'', ''c'', ''a'']" and hash = fmempty and flds = "[]" and now' = 4]
       emptied_container_is_deleted[OF look[of ?h] live[of "RedisHash (fmupd ''f'' ''1'' fmempty)"], where x = "''a''" and S = "{||}" and members = "[]"
          and hash = "fmupd ''f'' ''1'' fmempty" and flds = "[''f'']" and now' = 4]
       live[of "RedisList [''a'']"] ne c2
  show ?thesis by (simp add: drop fcard_finsert_if)
qed

text \<open>
  C8.  Let \<open>key\<close> be absent, expired, or hold a set (\<open>type\<close> returns nothing or
  \<open>SET\<close>), and let \<open>prior\<close> be what \<open>smembers\<close> returns before the call.  Then \<open>sadd\<close>
  returns the number of distinct members of the batch that are not in \<open>prior\<close> (not the
  size of the resulting set), and afterwards \<open>smembers\<close> returns the union of \<open>prior\<close> and
  the batch.  In particular, where \<open>"S"\<close> is absent, \<open>sadd "S" ["a","b"]\<close> returns 2, a
  following \<open>sadd "S" ["b","c"]\<close> returns 1, and \<open>smembers "S"\<close> is then \<open>{a, b, c}\<close>.
\<close>

theorem sadd_counts_new_members:
  "(fst (type store now key) = None \<or> fst (type store now key) = Some SET \<longrightarrow>
      (\<exists>prior. fst (smembers store now key) = Inr prior \<and>
         fst (sadd store now key members) = Inr (fcard (fset_of_list members |-| prior)) \<and>
         fst (smembers (snd (sadd store now key members)) now key)
           = Inr (prior |\<union>| fset_of_list members))) \<and>
   (fmlookup store0 ''S'' = None \<longrightarrow>
      fst (sadd store0 t1 ''S'' [''a'', ''b'']) = Inr 2 \<and>
      fst (sadd (snd (sadd store0 t1 ''S'' [''a'', ''b''])) t2 ''S'' [''b'', ''c'']) = Inr 1 \<and>
      fst (smembers (snd (sadd (snd (sadd store0 t1 ''S'' [''a'', ''b''])) t2 ''S'' [''b'', ''c'']))
             t3 ''S'') = Inr {|''a'', ''b'', ''c''|})"
proof (intro conjI impI)
  assume ty: "fst (type store now key) = None \<or> fst (type store now key) = Some SET"
  consider (absent) "fmlookup store key = None"
    | (dead) v where "fmlookup store key = Some v" "RedisValue_isExpired v now"
    | (live) v where "fmlookup store key = Some v" "\<not> RedisValue_isExpired v now"
        "getType v = SET"
  proof (cases "fmlookup store key")
    case None
    then show ?thesis using absent by simp
  next
    case (Some v)
    show ?thesis
    proof (cases "RedisValue_isExpired v now")
      case True
      with Some show ?thesis using dead by simp
    next
      case False
      with Some ty have "getType v = SET" by (simp add: type_def isExpired_live)
      with Some False show ?thesis using live by simp
    qed
  qed
  then show "\<exists>prior. fst (smembers store now key) = Inr prior \<and>
         fst (sadd store now key members) = Inr (fcard (fset_of_list members |-| prior)) \<and>
         fst (smembers (snd (sadd store now key members)) now key)
           = Inr (prior |\<union>| fset_of_list members)"
  proof cases
    case absent
    let ?e = "RedisValue_of (RedisSet (fset_of_list members))"
    have "fst (smembers store now key) = Inr {||}"
      using absent by (simp add: smembers_def isExpired_absent)
    moreover have "sadd store now key members
                     = (Inr (fcard (fset_of_list members)), fmupd key ?e store)"
      using absent by (simp add: sadd_def isExpired_absent Let_def)
    moreover have "smembers (fmupd key ?e store) now key
                     = (Inr (fset_of_list members), fmupd key ?e store)"
      by (rule smembers_live[where v = ?e])
         (simp_all add: RedisValue_of_def RedisValue_isExpired_def)
    ultimately show ?thesis by simp
  next
    case dead
    let ?e = "RedisValue_of (RedisSet (fset_of_list members))"
    have "fst (smembers store now key) = Inr {||}"
      using dead by (simp add: smembers_def isExpired_dead)
    moreover have "sadd store now key members
                     = (Inr (fcard (fset_of_list members)), fmupd key ?e store)"
      using dead by (simp add: sadd_def isExpired_dead Let_def fmupd_fmdrop_same)
    moreover have "smembers (fmupd key ?e store) now key
                     = (Inr (fset_of_list members), fmupd key ?e store)"
      by (rule smembers_live[where v = ?e])
         (simp_all add: RedisValue_of_def RedisValue_isExpired_def)
    ultimately show ?thesis by simp
  next
    case live
    from live(3) obtain S where S: "data v = RedisSet S"
      by (cases "data v") (simp_all add: getType_def)
    let ?e = "v\<lparr>data := RedisSet (S |\<union>| fset_of_list members)\<rparr>"
    have "fst (smembers store now key) = Inr S"
      using live S by (simp add: smembers_live)
    moreover have "sadd store now key members
                     = (Inr (fcard (fset_of_list members |-| S)), fmupd key ?e store)"
      using live S by (simp add: sadd_def isExpired_live sadd_loop_eq Let_def)
    moreover have "smembers (fmupd key ?e store) now key
                     = (Inr (S |\<union>| fset_of_list members), fmupd key ?e store)"
      by (rule smembers_live[where v = ?e])
         (use live(2) in \<open>simp_all add: RedisValue_isExpired_def\<close>)
    ultimately show ?thesis by simp
  qed
next
  assume a: "fmlookup store0 ''S'' = None"
  let ?e1 = "RedisValue_of (RedisSet {|''a'', ''b''|})"
  let ?e2 = "?e1\<lparr>data := RedisSet {|''a'', ''b'', ''c''|}\<rparr>"
  have live: "\<not> RedisValue_isExpired ?e1 t" "\<not> RedisValue_isExpired ?e2 t" for t
    by (simp_all add: RedisValue_of_def RedisValue_isExpired_def)
  have s1: "sadd store0 t1 ''S'' [''a'', ''b''] = (Inr 2, fmupd ''S'' ?e1 store0)"
    using a by (simp add: sadd_def isExpired_absent Let_def fcard_finsert_if)
  have l1: "fmlookup (fmupd ''S'' ?e1 store0) ''S'' = Some ?e1" by simp
  have s2: "sadd (fmupd ''S'' ?e1 store0) t2 ''S'' [''b'', ''c''] = (Inr 1, fmupd ''S'' ?e2 store0)"
    unfolding sadd_def isExpired_live[OF l1 live(1)]
    by (simp add: getType_def RedisValue_of_def finsert_commute)
  have l2: "fmlookup (fmupd ''S'' ?e2 store0) ''S'' = Some ?e2" by simp
  have s3: "smembers (fmupd ''S'' ?e2 store0) t3 ''S''
              = (Inr {|''a'', ''b'', ''c''|}, fmupd ''S'' ?e2 store0)"
    by (rule smembers_live[OF l2 live(2)]) simp
  show "fst (sadd store0 t1 ''S'' [''a'', ''b'']) = Inr 2"
    by (simp add: s1)
  show "fst (sadd (snd (sadd store0 t1 ''S'' [''a'', ''b''])) t2 ''S'' [''b'', ''c'']) = Inr 1"
    by (simp add: s1 s2)
  show "fst (smembers (snd (sadd (snd (sadd store0 t1 ''S'' [''a'', ''b''])) t2 ''S'' [''b'', ''c'']))
             t3 ''S'') = Inr {|''a'', ''b'', ''c''|}"
    by (simp add: s1 s2 s3)
qed

theorem sadd_counts_new_members_witness:
  "fst (type (fmupd ''S'' \<lparr>data = RedisSet {|''a'', ''b''|}, expiry = None\<rparr> fmempty) 0 ''S'')
     = Some SET \<and>
   fst (smembers (fmupd ''S'' \<lparr>data = RedisSet {|''a'', ''b''|}, expiry = None\<rparr> fmempty) 0 ''S'')
     = Inr {|''a'', ''b''|} \<and>
   fst (sadd (fmupd ''S'' \<lparr>data = RedisSet {|''a'', ''b''|}, expiry = None\<rparr> fmempty) 0 ''S''
          [''b'', ''c'', ''c''])
     = Inr 1 \<and>
   fst (smembers
          (snd (sadd (fmupd ''S'' \<lparr>data = RedisSet {|''a'', ''b''|}, expiry = None\<rparr> fmempty) 0 ''S''
                  [''b'', ''c'', ''c'']))
          0 ''S'')
     = Inr {|''a'', ''b'', ''c''|} \<and>
   fmlookup (fmempty :: StorageEngine) ''S'' = None \<and>
   fst (sadd fmempty 0 ''S'' [''a'', ''b'']) = Inr 2 \<and>
   fst (sadd (snd (sadd fmempty 0 ''S'' [''a'', ''b''])) 0 ''S'' [''b'', ''c'']) = Inr 1 \<and>
   fst (smembers (snd (sadd (snd (sadd fmempty 0 ''S'' [''a'', ''b''])) 0 ''S'' [''b'', ''c'']))
          0 ''S'') = Inr {|''a'', ''b'', ''c''|}"
proof -
  let ?e = "\<lparr>data = RedisSet {|''a'', ''b''|}, expiry = None\<rparr>"
  let ?s = "fmupd ''S'' ?e fmempty"
  have look: "fmlookup ?s ''S'' = Some ?e" by simp
  have live: "\<not> RedisValue_isExpired ?e 0" by (simp add: RedisValue_isExpired_def)
  have ty: "fst (type ?s 0 ''S'') = Some SET"
    unfolding type_def isExpired_live[OF look live] by (simp add: getType_def)
  have pr: "fst (smembers ?s 0 ''S'') = Inr {|''a'', ''b''|}"
    by (simp add: smembers_live[OF look live])
  have ab: "fmlookup (fmempty :: StorageEngine) ''S'' = None" by simp
  note sadd_counts_new_members[where store = ?s and now = 0 and key = "''S''" and members = "[''b'', ''c'', ''c'']"
          and ?store0.0 = fmempty and ?t1.0 = 0 and ?t2.0 = 0 and ?t3.0 = 0]
  with ty ab obtain prior where p: "fst (smembers ?s 0 ''S'') = Inr prior"
      "fst (sadd ?s 0 ''S'' [''b'', ''c'', ''c''])
         = Inr (fcard (fset_of_list [''b'', ''c'', ''c''] |-| prior))"
      "fst (smembers (snd (sadd ?s 0 ''S'' [''b'', ''c'', ''c''])) 0 ''S'')
         = Inr (prior |\<union>| fset_of_list [''b'', ''c'', ''c''])"
    and q: "fst (sadd fmempty 0 ''S'' [''a'', ''b'']) = Inr 2"
      "fst (sadd (snd (sadd fmempty 0 ''S'' [''a'', ''b''])) 0 ''S'' [''b'', ''c'']) = Inr 1"
      "fst (smembers (snd (sadd (snd (sadd fmempty 0 ''S'' [''a'', ''b''])) 0 ''S'' [''b'', ''c'']))
          0 ''S'') = Inr {|''a'', ''b'', ''c''|}"
    by auto
  from p(1) pr have prior: "prior = {|''a'', ''b''|}" by simp
  have d: "fset_of_list [''b'', ''c'', ''c''] |-| {|''a'', ''b''|} = {|''c''|}" by auto
  have u: "{|''a'', ''b''|} |\<union>| fset_of_list [''b'', ''c'', ''c''] = {|''a'', ''b'', ''c''|}" by auto
  show ?thesis using ty pr p(2,3) q ab unfolding prior d u by (simp add: fcard_finsert_if)
qed

text \<open>
  C1.  \<open>ThreadSafeStore::get\<close> runs under a shared lock and yet changes the map: after
  \<open>set "s" "v" 1\<close> at clock reading \<open>0\<close> the key holds an entry with deadline
  \<open>1000000000\<close>; a \<open>get "s"\<close> one tick after the deadline returns nothing and leaves the
  map without the key.  The deletion is the \<open>store_.erase\<close> of \<open>StorageEngine::isExpired\<close>,
  which every keyed read operation calls first (\<open>read_ops_store\<close>, \<open>shared_lock_frame\<close>).
\<close>

theorem shared_lock_get_erases_expired_entry:
  "ThreadSafeStore_lock (Cmd_get ''s'') = shared_lock \<and>
   fmlookup (snd (ThreadSafeStore_run (Cmd_set ''s'' ''v'' 1) fmempty 0)) ''s''
     = Some \<lparr>data = RedisString ''v'', expiry = Some 1000000000\<rparr> \<and>
   ThreadSafeStore_run (Cmd_get ''s'')
       (snd (ThreadSafeStore_run (Cmd_set ''s'' ''v'' 1) fmempty 0)) 1000000001
     = (Reply_string None, fmempty) \<and>
   snd (ThreadSafeStore_run (Cmd_get ''s'')
          (snd (ThreadSafeStore_run (Cmd_set ''s'' ''v'' 1) fmempty 0)) 1000000001)
     \<noteq> snd (ThreadSafeStore_run (Cmd_set ''s'' ''v'' 1) fmempty 0)"
proof -
  let ?e = "\<lparr>data = RedisString ''v'', expiry = Some 1000000000\<rparr>"
  have s: "ThreadSafeStore_run (Cmd_set ''s'' ''v'' 1) fmempty 0 = (Reply_bool True, fmupd ''s'' ?e fmempty)"
    by (simp add: ThreadSafeStore_run_def set_value_def RedisValue_ttl_def seconds_def
        ticks_per_second_def)
  have g: "ThreadSafeStore_run (Cmd_get ''s'') (fmupd ''s'' ?e fmempty) 1000000001
             = (Reply_string None, fmempty)"
    by (simp add: ThreadSafeStore_run_def returning_def get_def isExpired_def
        RedisValue_isExpired_def fmdrop_fmupd_same)
  have "fmlookup (fmupd ''s'' ?e fmempty) ''s'' \<noteq> fmlookup (fmempty :: StorageEngine) ''s''"
    by simp
  then have n: "fmupd ''s'' ?e fmempty \<noteq> fmempty" by metis
  show ?thesis using n by (simp add: s g)
qed

text \<open>
  C3.  \<open>StorageEngine::remove\<close> does not look at the deadline: on an entry that is past
  its deadline, for which \<open>exists\<close> returns false and \<open>get\<close> returns nothing at the same
  reading of the clock, \<open>remove\<close> returns true.
\<close>

theorem remove_reports_expired_key_as_existing:
  "fmlookup (snd (set_value fmempty 0 ''s'' ''v'' 1)) ''s''
     = Some \<lparr>data = RedisString ''v'', expiry = Some 1000000000\<rparr> \<and>
   RedisValue_isExpired \<lparr>data = RedisString ''v'', expiry = Some 1000000000\<rparr> 1000000001 \<and>
   fst (exists (snd (set_value fmempty 0 ''s'' ''v'' 1)) 1000000001 ''s'') = False \<and>
   fst (get (snd (set_value fmempty 0 ''s'' ''v'' 1)) 1000000001 ''s'') = Inr None \<and>
   fst (remove (snd (set_value fmempty 0 ''s'' ''v'' 1)) ''s'') = True"
  by (simp add: set_value_def RedisValue_ttl_def seconds_def ticks_per_second_def
      RedisValue_isExpired_def isExpired_def exists_def get_def remove_def)

text \<open>
  C7.  \<open>StorageEngine::ttl\<close> tests \<open>remaining <= 0\<close> where \<open>RedisValue::isExpired\<close>
  tests \<open>now > expiry\<close>.  At the reading of the clock that equals the deadline the entry
  is not expired (\<open>exists\<close> is true, \<open>get\<close> returns the value) and the whole seconds
  that remain are \<open>0\<close>, but \<open>ttl\<close> returns \<open>-2\<close> and erases the entry.  Off the
  deadline \<open>ttl\<close> is as described (\<open>ttl_cases\<close>).
\<close>

theorem ttl_at_deadline_erases_live_entry:
  "fmlookup (snd (set_value fmempty 0 ''s'' ''v'' 1)) ''s''
     = Some \<lparr>data = RedisString ''v'', expiry = Some 1000000000\<rparr> \<and>
   RedisValue_isExpired \<lparr>data = RedisString ''v'', expiry = Some 1000000000\<rparr> 1000000000 = False \<and>
   fst (exists (snd (set_value fmempty 0 ''s'' ''v'' 1)) 1000000000 ''s'') = True \<and>
   fst (get (snd (set_value fmempty 0 ''s'' ''v'' 1)) 1000000000 ''s'') = Inr (Some ''v'') \<and>
   (1000000000 - 1000000000) div ticks_per_second = 0 \<and>
   ttl (snd (set_value fmempty 0 ''s'' ''v'' 1)) 1000000000 ''s'' = (- 2, fmempty)"
  by (simp add: set_value_def RedisValue_ttl_def seconds_def ticks_per_second_def
      RedisValue_isExpired_def isExpired_def exists_def get_def ttl_def getType_def
      fmdrop_fmupd_same)

text \<open>
  C9.  From the empty store, \<open>rpush "k" []\<close> returns \<open>0\<close> and stores an empty list
  (\<open>llen\<close> is \<open>0\<close>).  On it, \<open>lrange\<close> with any \<open>start\<close> and \<open>stop\<close> clamps both bounds
  to \<open>0\<close> and builds the vector from \<open>begin() + 0\<close> to \<open>begin() + 1\<close>, which is past
  the end of the empty list: the access is out of range.
\<close>

theorem lrange_on_empty_list_out_of_range:
  "fst (ThreadSafeStore_run (Cmd_rpush ''k'' []) fmempty t) = Reply_size 0 \<and>
   fst (ThreadSafeStore_run (Cmd_llen ''k'') (snd (ThreadSafeStore_run (Cmd_rpush ''k'' []) fmempty t)) t')
     = Reply_size 0 \<and>
   fst (ThreadSafeStore_run (Cmd_lrange ''k'' start stop)
          (snd (ThreadSafeStore_run (Cmd_rpush ''k'' []) fmempty t)) t')
     = Raised out_of_range"
  by (simp add: ThreadSafeStore_run_def returning_def rpush_def llen_def lrange_def
      vector_range_def isExpired_def RedisValue_isExpired_def RedisValue_of_def getType_def)

end
